theory Spec2Isabelle
  imports Main
begin

section \<open>JavaScript values and records\<close>

text \<open>
  The local store (\<^verbatim>\<open>src/services/database/database.ts\<close>) handles records typed
  \<^verbatim>\<open>any\<close>: objects whose fields hold scalar values. A value is one of the JavaScript
  primitives. Of the numbers, \<open>JNum n\<close> stands for the integer \<open>n\<close>, meant for the safe
  integers (below \<open>2 ^ 53\<close> in magnitude), and \<open>JNaN\<close> for \<^verbatim>\<open>NaN\<close>; fractions and
  infinities are not modelled.
\<close>

datatype jsval = JUndefined | JNull | JBool bool | JNum int | JNaN | JStr string

text \<open>
  An object is the list of its own properties in the order \<^verbatim>\<open>Object.entries\<close> lists
  them. Property names are unique in an object (\<open>wf_object\<close>).
\<close>

type_synonym jsobject = "(string \<times> jsval) list"

definition wf_object :: "jsobject \<Rightarrow> bool" where
  "wf_object obj = distinct (map fst obj)"

text \<open>The truth value JavaScript gives a value in \<^verbatim>\<open>if (v)\<close>, \<^verbatim>\<open>!v\<close> and \<^verbatim>\<open>v ? a : b\<close>.\<close>

fun truthy :: "jsval \<Rightarrow> bool" where
  "truthy JUndefined = False"
| "truthy JNull = False"
| "truthy (JBool b) = b"
| "truthy (JNum n) = (n \<noteq> 0)"
| "truthy JNaN = False"
| "truthy (JStr s) = (s \<noteq> [])"

datatype jstype = TUndefined | TObject | TBoolean | TNumber | TString

text \<open>The \<^verbatim>\<open>typeof\<close> operator (\<^verbatim>\<open>typeof null\<close> is \<^verbatim>\<open>'object'\<close>).\<close>

fun typeof :: "jsval \<Rightarrow> jstype" where
  "typeof JUndefined = TUndefined"
| "typeof JNull = TObject"
| "typeof (JBool b) = TBoolean"
| "typeof (JNum n) = TNumber"
| "typeof JNaN = TNumber"
| "typeof (JStr s) = TString"

text \<open>
  \<^verbatim>\<open>{...result, [key]: v}\<close>: a copy of \<open>result\<close> in which \<open>key\<close> holds \<open>v\<close>. A key
  that is already there keeps its place, a new one goes last.
\<close>

fun obj_set :: "(string \<times> 'v) list \<Rightarrow> string \<Rightarrow> 'v \<Rightarrow> (string \<times> 'v) list" where
  "obj_set [] key v = [(key, v)]"
| "obj_set ((k, w) # rest) key v =
     (if k = key then (key, v) # rest else (k, w) # obj_set rest key v)"

text \<open>\<^verbatim>\<open>delete record[key]\<close>.\<close>

definition obj_delete :: "jsobject \<Rightarrow> string \<Rightarrow> jsobject" where
  "obj_delete obj key = filter (\<lambda>(k, v). k \<noteq> key) obj"


section \<open>Value coercion before a write\<close>

definition quote :: char where
  "quote = CHR 0x27"

text \<open>\<^verbatim>\<open>value.replace(/'/g, "''")\<close>: every single quote is replaced by two.\<close>

fun replaceQuotes :: "string \<Rightarrow> string" where
  "replaceQuotes [] = []"
| "replaceQuotes (c # cs) =
     (if c = quote then quote # quote # replaceQuotes cs else c # replaceQuotes cs)"

text \<open>
  The body of the reducer of \<^verbatim>\<open>convertObjectToSQLite\<close> (database.ts, lines 265-275):
  the chain of tests on one field value, in the order of the source. The result is either
  the text that will stand in the statement (a \<open>JStr\<close>) or a value left as it is.
\<close>

definition sqliteValue :: "jsval \<Rightarrow> jsval" where
  "sqliteValue v =
     (if \<not> truthy v then JStr [quote, quote]
      else if typeof v = TString then
        (case v of JStr s \<Rightarrow>
           (if truthy v then JStr ([quote] @ replaceQuotes s @ [quote]) else JStr [])
         | _ \<Rightarrow> v)
      else if typeof v = TBoolean then (if truthy v then JNum 1 else JNum 0)
      else v)"

definition convertObjectToSQLite :: "jsobject \<Rightarrow> jsobject" where
  "convertObjectToSQLite rcd =
     foldl (\<lambda>result (key, v). obj_set result key (sqliteValue v)) [] rcd"

section \<open>Text of values and statements\<close>

definition digit :: "nat \<Rightarrow> char" where
  "digit d = ''0123456789'' ! d"

function show_nat :: "nat \<Rightarrow> string" where
  "show_nat n = (if n < 10 then [digit n] else show_nat (n div 10) @ [digit (n mod 10)])"
  by pat_completeness auto
termination
  by (relation "measure (\<lambda>n. n)") auto

declare show_nat.simps [simp del]

definition show_int :: "int \<Rightarrow> string" where
  "show_int i = (if i < 0 then CHR ''-'' # show_nat (nat (- i)) else show_nat (nat i))"


fun js_toString :: "jsval \<Rightarrow> string" where
  "js_toString JUndefined = ''undefined''"
| "js_toString JNull = ''null''"
| "js_toString (JBool b) = (if b then ''true'' else ''false'')"
| "js_toString (JNum n) = show_int n"
| "js_toString JNaN = ''NaN''"
| "js_toString (JStr s) = s"

text \<open>\<^verbatim>\<open>Array.prototype.join\<close> writes \<^verbatim>\<open>null\<close> and \<^verbatim>\<open>undefined\<close> as nothing.\<close>

fun js_joinElem :: "jsval \<Rightarrow> string" where
  "js_joinElem JUndefined = []"
| "js_joinElem JNull = []"
| "js_joinElem v = js_toString v"

fun join :: "string \<Rightarrow> string list \<Rightarrow> string" where
  "join sep [] = []"
| "join sep [x] = x"
| "join sep (x # y # ys) = x @ sep @ join sep (y # ys)"

record fieldTypeMapping =
  name :: string
  ftype :: string

text \<open>
  The statements the module hands to \<^verbatim>\<open>executeTransaction\<close>, one constructor for
  each template literal of database.ts, holding the values the template is filled with;
  \<open>render\<close> is the text of the template. A \<open>CreateTable\<close> holds the column
  declarations as \<^verbatim>\<open>prepareTable\<close> writes them, and before them the declaration of the
  \<^verbatim>\<open>_localId\<close> column when \<^verbatim>\<open>prepareTable\<close> puts it first.
\<close>

datatype statement =
    SelectAll string
  | SelectWhere string jsval
  | InsertInto string "string list" "jsval list list"
  | UpdateSet string "(string \<times> jsval) list" string
  | DeleteLocalId string jsval
  | CreateTable string "string option" "string list"
  | DropTable string

definition localIdColumn :: string where
  "localIdColumn = ''_localId integer primary key autoincrement''"

fun render :: "statement \<Rightarrow> string" where
  "render (SelectAll tableName) = ''select * from '' @ tableName"
| "render (SelectWhere tableName whereClause) =
     ''select * from '' @ tableName @ '' '' @ js_toString whereClause"
| "render (InsertInto tableName keys vals) =
     ''insert into '' @ tableName @ '' ('' @ join '','' keys @ '') values ''
       @ join '','' (map (\<lambda>vs. ''('' @ join '','' (map js_joinElem vs) @ '')'') vals)"
| "render (UpdateSet tableName keyValues whereClause) =
     ''update '' @ tableName @ '' set ''
       @ join '','' (map (\<lambda>(key, v). key @ '' = '' @ js_toString v) keyValues)
       @ '' '' @ whereClause"
| "render (DeleteLocalId tableName localId) =
     ''delete from '' @ tableName @ '' where _localId = '' @ js_toString localId"
| "render (CreateTable tableName localIdDeclaration fieldsWithType) =
     ''create table if not exists '' @ tableName @ '' (''
       @ (case localIdDeclaration of
            Some declaration \<Rightarrow> declaration @ '','' @ join '','' fieldsWithType
          | None \<Rightarrow> join '','' fieldsWithType)
       @ '');''"
| "render (DropTable tableName) = ''DROP TABLE IF EXISTS '' @ tableName @ '';''"

section \<open>The local store\<close>

text \<open>
  The embedded database is outside the repository: it is a parameter \<open>exec\<close>, which
  runs one statement on a database state \<open>'db\<close> and gives either its error or its result
  set, with the new state. A promise is resolved, rejected or never settled; once settled
  it stays so (\<open>settle_once\<close>).
\<close>

datatype resultSet = ResultSet (rows_array: "jsobject list")

type_synonym ('db, 'e) executor = "'db \<Rightarrow> statement \<Rightarrow> ('e + resultSet) \<times> 'db"

datatype 'e rejection = InvalidArgument string | StorageError 'e

datatype ('e, 'a) promise = Resolved 'a | Rejected 'e | Pending

fun settle_once :: "('e, 'a) promise \<Rightarrow> ('e, 'a) promise \<Rightarrow> ('e, 'a) promise" where
  "settle_once Pending later = later"
| "settle_once first later = first"

fun then_resolve :: "('a \<Rightarrow> 'b) \<Rightarrow> ('e, 'a) promise \<Rightarrow> ('e, 'b) promise" where
  "then_resolve f (Resolved a) = Resolved (f a)"
| "then_resolve f (Rejected e) = Rejected e"
| "then_resolve f Pending = Pending"

definition executeTransaction ::
  "('db, 'e) executor \<Rightarrow> 'db \<Rightarrow> statement \<Rightarrow> ('e rejection, resultSet) promise \<times> 'db" where
  "executeTransaction exec db st =
     (case exec db st of
        (Inr result, db') \<Rightarrow> (Resolved result, db')
      | (Inl error, db') \<Rightarrow> (Rejected (StorageError error), db'))"

definition getAllRecords ::
  "('db, 'e) executor \<Rightarrow> 'db \<Rightarrow> string \<Rightarrow> ('e rejection, jsobject list) promise \<times> 'db" where
  "getAllRecords exec db tableName =
     (let (p, db') = executeTransaction exec db (SelectAll tableName)
      in (then_resolve rows_array p, db'))"

definition whereClauseMessage :: string where
  \<open>whereClauseMessage = ''Specify where clause or use "getAllRecords" instead.''\<close>

text \<open>
  \<^verbatim>\<open>getRecords\<close> rejects when the where clause is falsy and, having no \<^verbatim>\<open>return\<close>
  there, goes on to run the statement; the later \<^verbatim>\<open>resolve\<close> or \<^verbatim>\<open>reject\<close> finds the
  promise settled.
\<close>

definition getRecords ::
  "('db, 'e) executor \<Rightarrow> 'db \<Rightarrow> string \<Rightarrow> jsval
     \<Rightarrow> ('e rejection, jsobject list) promise \<times> 'db" where
  "getRecords exec db tableName whereClause =
     (let first = (if \<not> truthy whereClause then Rejected (InvalidArgument whereClauseMessage)
                   else Pending);
          (p, db') = executeTransaction exec db (SelectWhere tableName whereClause)
      in (settle_once first (then_resolve rows_array p), db'))"

definition getFieldTypeMappings :: "jsobject \<Rightarrow> fieldTypeMapping list" where
  "getFieldTypeMappings rcd =
     map (\<lambda>(n, v). \<lparr>name = n,
                     ftype = (if typeof v = TNumber \<or> typeof v = TBoolean then ''integer''
                              else ''text'')\<rparr>) rcd"

definition prepareTable ::
  "('db, 'e) executor \<Rightarrow> 'db \<Rightarrow> string \<Rightarrow> fieldTypeMapping list \<Rightarrow> jsval
     \<Rightarrow> ('e rejection, resultSet) promise \<times> 'db" where
  "prepareTable exec db tableName fieldTypeMappings primaryKey =
     (let fieldsWithType =
            map (\<lambda>field. if JStr (name field) = primaryKey
                          then name field @ '' '' @ ftype field @ '' primary key''
                          else name field @ '' '' @ ftype field) fieldTypeMappings
      in executeTransaction exec db
           (CreateTable tableName (if \<not> truthy primaryKey then Some localIdColumn else None)
              fieldsWithType))"

datatype saveResult = EmptyArray | Saved resultSet

text \<open>
  \<^verbatim>\<open>saveRecords\<close> awaits \<^verbatim>\<open>prepareTable\<close> inside the executor of its own promise:
  when that rejects, neither \<^verbatim>\<open>resolve\<close> nor \<^verbatim>\<open>reject\<close> is ever called.
\<close>

definition saveRecords ::
  "('db, 'e) executor \<Rightarrow> 'db \<Rightarrow> string \<Rightarrow> jsobject list \<Rightarrow> jsval
     \<Rightarrow> ('e rejection, saveResult) promise \<times> 'db" where
  "saveRecords exec db tableName records primaryKey =
     (case records of
        [] \<Rightarrow> (Resolved EmptyArray, db)
      | first # _ \<Rightarrow>
          (let fieldTypeMappings = getFieldTypeMappings first
           in case prepareTable exec db tableName fieldTypeMappings primaryKey of
                (Resolved _, db1) \<Rightarrow>
                  (let keys = map name fieldTypeMappings;
                       vals = map (\<lambda>rcd. map snd (convertObjectToSQLite rcd)) records;
                       (p, db2) = executeTransaction exec db1 (InsertInto tableName keys vals)
                   in (then_resolve Saved p, db2))
              | (_, db1) \<Rightarrow> (Pending, db1)))"

definition deleteRecord ::
  "('db, 'e) executor \<Rightarrow> 'db \<Rightarrow> string \<Rightarrow> jsval \<Rightarrow> ('e rejection, resultSet) promise \<times> 'db" where
  "deleteRecord exec db tableName localId =
     executeTransaction exec db (DeleteLocalId tableName localId)"

definition clearTable ::
  "('db, 'e) executor \<Rightarrow> 'db \<Rightarrow> string \<Rightarrow> ('e rejection, resultSet) promise \<times> 'db" where
  "clearTable exec db tableName = executeTransaction exec db (DropTable tableName)"

text \<open>
  \<^verbatim>\<open>updateRecord\<close> works on the caller's object: the record is a reference into a
  heap of objects, and the deletions are writes to that heap. \<^verbatim>\<open>Object.entries\<close> is
  taken once, before the loop, so the loop runs over the fields the record had at the call.
\<close>

type_synonym ref = nat

type_synonym heap = "ref \<Rightarrow> jsobject"

definition deleteNulls :: "jsobject \<Rightarrow> jsobject" where
  "deleteNulls rcd =
     foldl (\<lambda>obj (key, v). if v = JNull then obj_delete obj key else obj) rcd rcd"

definition updateStatement :: "string \<Rightarrow> jsobject \<Rightarrow> string \<Rightarrow> statement" where
  "updateStatement tableName rcd whereClause =
     UpdateSet tableName (convertObjectToSQLite rcd) whereClause"

definition updateRecord ::
  "('db, 'e) executor \<Rightarrow> 'db \<Rightarrow> heap \<Rightarrow> string \<Rightarrow> ref \<Rightarrow> string
     \<Rightarrow> ('e rejection, resultSet) promise \<times> 'db \<times> heap" where
  "updateRecord exec db h tableName r whereClause =
     (let h' = h(r := deleteNulls (h r));
          (p, db') = executeTransaction exec db (updateStatement tableName (h' r) whereClause)
      in (p, db', h'))"

text \<open>The assignments of an update statement.\<close>

fun assignments :: "statement \<Rightarrow> (string \<times> jsval) list" where
  "assignments (UpdateSet tableName keyValues whereClause) = keyValues"
| "assignments _ = []"

text \<open>
  An executor for examples: it keeps the statements it is given, in order, and answers
  each with an empty result set.
\<close>

definition recordingExec :: "(statement list, unit) executor" where
  "recordingExec db st = (Inr (ResultSet []), db @ [st])"

text \<open>A heap for examples: the given object at reference 0, an empty object elsewhere.\<close>

definition exampleHeap :: "jsobject \<Rightarrow> heap" where
  "exampleHeap obj r = (if r = 0 then obj else [])"

section \<open>The metadata cache and the layout assembler\<close>
































section \<open>The sync reconciler\<close>

text \<open>
  A survey row of the local store, as far as synchronisation reads and writes it. The list
  header (SurveyListHeaderButtons.tsx) hands \<^verbatim>\<open>syncLocalSurveys\<close> the surveys whose
  \<^verbatim>\<open>_syncStatus\<close> is the unsynced one.
\<close>

datatype syncStatus = SYNCED | UNSYNCED | RemoteStatus string

record survey =
  localId :: nat
  remoteId :: "string option"
  syncStatus :: syncStatus

definition localSurveys :: "survey list \<Rightarrow> survey list" where
  "localSurveys surveys = filter (\<lambda>s. syncStatus s = UNSYNCED) surveys"

record syncOutcome =
  succeeded :: nat
  failed :: nat

text \<open>
  Modelled from the spec: \<^verbatim>\<open>services/sync\<close> (\<^verbatim>\<open>syncLocalSurveys\<close>) and the remote
  record client are not in the sources. The spec, section 4.5: for each record of an
  ordered sequence the reconciler attempts a remote create-or-update call; on success it
  marks the local row SYNCED and writes the identifier the remote system assigned into the
  row; on failure it leaves the record as it is and goes on with the remainder; it reports
  the counts of succeeded and failed records and deletes no local record. The remote call
  \<open>createOrUpdate\<close> is a parameter: it answers a record with an error or with an
  identifier.
\<close>

definition markSynced :: "survey list \<Rightarrow> nat \<Rightarrow> string \<Rightarrow> survey list" where
  "markSynced store i rid =
     map (\<lambda>row. if localId row = i then row\<lparr>syncStatus := SYNCED, remoteId := Some rid\<rparr>
                 else row) store"

text \<open>
  Modelled from the spec: \<^verbatim>\<open>syncLocalSurveys\<close> of \<^verbatim>\<open>services/sync\<close>, which is not in
  the sources (spec, section 4.5): the records are pushed in order, each on its own.
\<close>

fun syncLocalSurveys ::
  "(survey \<Rightarrow> 'e + string) \<Rightarrow> survey list \<Rightarrow> survey list \<Rightarrow> syncOutcome \<times> survey list"
where
  "syncLocalSurveys createOrUpdate store [] = (\<lparr>succeeded = 0, failed = 0\<rparr>, store)"
| "syncLocalSurveys createOrUpdate store (r # rs) =
     (case createOrUpdate r of
        Inr rid \<Rightarrow>
          (let (outcome, store') =
                 syncLocalSurveys createOrUpdate (markSynced store (localId r) rid) rs
           in (outcome\<lparr>succeeded := succeeded outcome + 1\<rparr>, store'))
      | Inl error \<Rightarrow>
          (let (outcome, store') = syncLocalSurveys createOrUpdate store rs
           in (outcome\<lparr>failed := failed outcome + 1\<rparr>, store')))"

fun accepted :: "'e + string \<Rightarrow> bool" where
  "accepted (Inr rid) = True"
| "accepted (Inl error) = False"

definition statusOf :: "survey list \<Rightarrow> nat \<Rightarrow> syncStatus option" where
  "statusOf store i = map_option syncStatus (find (\<lambda>row. localId row = i) store)"

text \<open>The scenario of the spec: three unsynced surveys, the remote call fails on the second.\<close>

definition threeSurveys :: "survey list" where
  "threeSurveys =
     [\<lparr>localId = 1, remoteId = None, syncStatus = UNSYNCED\<rparr>,
      \<lparr>localId = 2, remoteId = None, syncStatus = UNSYNCED\<rparr>,
      \<lparr>localId = 3, remoteId = None, syncStatus = UNSYNCED\<rparr>]"

definition failsOnSecond :: "survey \<Rightarrow> unit + string" where
  "failsOnSecond r = (if localId r = 2 then Inl () else Inr ''a0B'')"

section \<open>The store's engine and the local identifiers\<close>

text \<open>
  Modelled from the spec: the engine that runs the statements (the embedded SQLite
  database behind \<^verbatim>\<open>executeTransaction\<close>) is not in the sources. The spec, section 3:
  every row not given an explicit primary key receives a synthetic auto-incrementing
  local identifier, unique within its table, monotonically increasing, never reused.
  The model covers the statements that create tables and give rows their identifiers.
  A table whose first column is declared \<^verbatim>\<open>_localId integer primary key autoincrement\<close>
  remembers the largest identifier it ever gave (\<open>lastLocalId\<close>); a new row gets one
  more than the larger of that and the largest identifier present. A table made without
  that declaration gives a new row one more than the largest identifier present, and has
  no \<^verbatim>\<open>_localId\<close> to delete by. \<^verbatim>\<open>create table if not exists\<close> leaves an existing
  table as it is, and dropping a table forgets it entirely, its counter included. Queries,
  updates and inserts that name \<^verbatim>\<open>_localId\<close> themselves are outside the model and are
  answered with an error.
\<close>

record sqlTable =
  autoincrement :: bool
  lastLocalId :: nat
  tableRows :: "(nat \<times> jsval list) list"

type_synonym store = "string \<Rightarrow> sqlTable option"

datatype sqlError = NoSuchTable | NoSuchColumn | Malformed | Unsupported

text \<open>
  Modelled from the spec: how the engine, which is not in the sources, numbers a new row
  (spec, section 3).
\<close>

fun maxId :: "(nat \<times> jsval list) list \<Rightarrow> nat" where
  "maxId [] = 0"
| "maxId ((i, vs) # rows) = max i (maxId rows)"

text \<open>
  Modelled from the spec: the identifier the engine, which is not in the sources, gives a
  new row (spec, section 3: auto-incrementing, never reused).
\<close>

definition insertRow :: "sqlTable \<Rightarrow> jsval list \<Rightarrow> sqlTable" where
  "insertRow tb vs =
     (if autoincrement tb
      then (let i = max (lastLocalId tb) (maxId (tableRows tb)) + 1
            in tb\<lparr>lastLocalId := i, tableRows := tableRows tb @ [(i, vs)]\<rparr>)
      else tb\<lparr>tableRows := tableRows tb @ [(maxId (tableRows tb) + 1, vs)]\<rparr>)"

text \<open>
  Modelled from the spec: how the engine, which is not in the sources, reads the first
  column declaration of a \<^verbatim>\<open>create table\<close>: it numbers the rows by auto-increment when the
  declaration is that of the local identifier, word for word.
\<close>

definition declaresAutoincrement :: "string option \<Rightarrow> bool" where
  "declaresAutoincrement firstColumn
     \<longleftrightarrow> firstColumn = Some ''_localId integer primary key autoincrement''"

text \<open>
  Modelled from the spec: the engine, which is not in the sources, on the statements that
  create, fill, thin out and drop tables (spec, sections 3 and 4.2).
\<close>

fun sqliteExec :: "(store, sqlError) executor" where
  "sqliteExec db (CreateTable t firstColumn fieldsWithType) =
     (case db t of
        Some tb \<Rightarrow> (Inr (ResultSet []), db)
      | None \<Rightarrow> (Inr (ResultSet []),
                  db(t \<mapsto> \<lparr>autoincrement = declaresAutoincrement firstColumn,
                           lastLocalId = 0, tableRows = []\<rparr>)))"
| "sqliteExec db (InsertInto t keys vals) =
     (case db t of
        None \<Rightarrow> (Inl NoSuchTable, db)
      | Some tb \<Rightarrow>
          if ''_localId'' \<in> set keys then (Inl Unsupported, db)
          else if \<exists>vs \<in> set vals. length vs \<noteq> length keys then (Inl Malformed, db)
          else (Inr (ResultSet []), db(t \<mapsto> foldl insertRow tb vals)))"
| "sqliteExec db (DeleteLocalId t lid) =
     (case db t of
        None \<Rightarrow> (Inl NoSuchTable, db)
      | Some tb \<Rightarrow>
          if \<not> autoincrement tb then (Inl NoSuchColumn, db)
          else (case lid of
                  JNum n \<Rightarrow>
                    (Inr (ResultSet []),
                     db(t \<mapsto> tb\<lparr>tableRows := filter (\<lambda>(i, vs). int i \<noteq> n) (tableRows tb)\<rparr>))
                | _ \<Rightarrow> (Inl Unsupported, db)))"
| "sqliteExec db (DropTable t) = (Inr (ResultSet []), db(t := None))"
| "sqliteExec db (SelectAll t) = (Inl Unsupported, db)"
| "sqliteExec db (SelectWhere t whereClause) = (Inl Unsupported, db)"
| "sqliteExec db (UpdateSet t keyValues whereClause) = (Inl Unsupported, db)"

text \<open>
  A history of one table: saves through \<^verbatim>\<open>saveRecords\<close> with the given primary-key
  argument, deletions through \<^verbatim>\<open>deleteRecord\<close>, and \<^verbatim>\<open>clearTable\<close>, which
  \<^verbatim>\<open>retrieveAllMetadata\<close> runs before it saves. \<open>assigned\<close> lists, in the order
  they were given, the identifiers the rows inserted along the history received.
\<close>

datatype storeOp = Save "jsobject list" | Delete nat | Clear

fun applyOp :: "string \<Rightarrow> jsval \<Rightarrow> store \<Rightarrow> storeOp \<Rightarrow> store" where
  "applyOp t primaryKey db (Save records) = snd (saveRecords sqliteExec db t records primaryKey)"
| "applyOp t primaryKey db (Delete i) = snd (deleteRecord sqliteExec db t (JNum (int i)))"
| "applyOp t primaryKey db Clear = snd (clearTable sqliteExec db t)"

definition localIds :: "store \<Rightarrow> string \<Rightarrow> nat list" where
  "localIds db t = (case db t of None \<Rightarrow> [] | Some tb \<Rightarrow> map fst (tableRows tb))"

definition newIds :: "store \<Rightarrow> store \<Rightarrow> string \<Rightarrow> nat list" where
  "newIds db db' t = filter (\<lambda>i. i \<notin> set (localIds db t)) (localIds db' t)"

fun assigned :: "string \<Rightarrow> jsval \<Rightarrow> store \<Rightarrow> storeOp list \<Rightarrow> nat list" where
  "assigned t primaryKey db [] = []"
| "assigned t primaryKey db (op # ops) =
     newIds db (applyOp t primaryKey db op) t
       @ assigned t primaryKey (applyOp t primaryKey db op) ops"

fun savedRecords :: "storeOp list \<Rightarrow> jsobject list" where
  "savedRecords [] = []"
| "savedRecords (Save records # ops) = records @ savedRecords ops"
| "savedRecords (Delete i # ops) = savedRecords ops"
| "savedRecords (Clear # ops) = savedRecords ops"

text \<open>
  A history in two parts: up to its last \<^verbatim>\<open>clearTable\<close>, and what came since.
  \<open>assignedSinceClear\<close> lists the identifiers given since the table was last dropped.
\<close>

definition upToClear :: "storeOp list \<Rightarrow> storeOp list" where
  "upToClear ops = rev (dropWhile (\<lambda>op. op \<noteq> Clear) (rev ops))"

definition sinceClear :: "storeOp list \<Rightarrow> storeOp list" where
  "sinceClear ops = rev (takeWhile (\<lambda>op. op \<noteq> Clear) (rev ops))"

definition assignedSinceClear ::
  "string \<Rightarrow> jsval \<Rightarrow> store \<Rightarrow> storeOp list \<Rightarrow> nat list" where
  "assignedSinceClear t primaryKey db ops =
     assigned t primaryKey (foldl (applyOp t primaryKey) db (upToClear ops)) (sinceClear ops)"

text \<open>The store in which no table exists.\<close>

definition noTables :: store where
  "noTables t = None"

text \<open>
  What holds of a table made with the identifier column, whatever was saved and deleted:
  the rows stand in increasing order of identifier, and none exceeds the largest
  identifier ever given.
\<close>

definition tableInv :: "sqlTable \<Rightarrow> bool" where
  "tableInv tb \<longleftrightarrow>
     autoincrement tb \<and> sorted_wrt (<) (map fst (tableRows tb))
     \<and> (\<forall>i \<in> set (map fst (tableRows tb)). i \<le> lastLocalId tb)"

definition storeInv :: "store \<Rightarrow> string \<Rightarrow> bool" where
  "storeInv db t = (case db t of None \<Rightarrow> True | Some tb \<Rightarrow> tableInv tb)"

definition lastGiven :: "store \<Rightarrow> string \<Rightarrow> nat" where
  "lastGiven db t = (case db t of None \<Rightarrow> 0 | Some tb \<Rightarrow> lastLocalId tb)"

definition emptyTable :: sqlTable where
  "emptyTable = \<lparr>autoincrement = True, lastLocalId = 0, tableRows = []\<rparr>"

text \<open>The rows one save adds to the table: none when the engine refuses the insert.\<close>

definition insertedValues :: "jsobject list \<Rightarrow> jsval list list" where
  "insertedValues records =
     (case records of
        [] \<Rightarrow> []
      | first # _ \<Rightarrow>
          (let keys = map name (getFieldTypeMappings first);
               vals = map (\<lambda>rcd. map snd (convertObjectToSQLite rcd)) records
           in if ''_localId'' \<in> set keys \<or> (\<exists>vs \<in> set vals. length vs \<noteq> length keys)
              then [] else vals))"

fun savedValues :: "storeOp \<Rightarrow> jsval list list" where
  "savedValues (Save records) = insertedValues records"
| "savedValues (Delete i) = []"
| "savedValues Clear = []"

text \<open>
  The records of one save have the shape \<^verbatim>\<open>saveRecords\<close> assumes: each has as many
  fields as the first, whose fields name the columns, and none of these is \<^verbatim>\<open>_localId\<close>.
\<close>

definition sameFields :: "jsobject list \<Rightarrow> bool" where
  "sameFields records =
     (case records of
        [] \<Rightarrow> True
      | first # _ \<Rightarrow>
          ''_localId'' \<notin> set (map fst first)
          \<and> (\<forall>r \<in> set records. wf_object r \<and> length r = length first))"

fun sameFieldsOp :: "storeOp \<Rightarrow> bool" where
  "sameFieldsOp (Save records) = sameFields records"
| "sameFieldsOp (Delete i) = True"
| "sameFieldsOp Clear = True"

text \<open>
  Two example histories. In the first a table is filled, dropped and filled again, as
  a metadata refresh does. In the second, after the drop, two rows are saved, the second
  is deleted and a third row is saved.
\<close>

definition refreshHistory :: "storeOp list" where
  "refreshHistory =
     [Save [[(''name'', JStr ''A'')], [(''name'', JStr ''B'')]], Clear,
      Save [[(''name'', JStr ''C'')]]]"

definition exampleHistory :: "storeOp list" where
  "exampleHistory =
     [Save [[(''name'', JStr ''Z'')]], Clear,
      Save [[(''name'', JStr ''A'')], [(''name'', JStr ''B'')]], Delete 2,
      Save [[(''name'', JStr ''C'')]]]"

section \<open>Facts about objects\<close>

lemma obj_set_fresh: "key \<notin> fst ` set obj \<Longrightarrow> obj_set obj key v = obj @ [(key, v)]"
  by (induction obj) auto

lemma convert_foldl:
  "distinct (map fst rcd) \<Longrightarrow> fst ` set acc \<inter> fst ` set rcd = {} \<Longrightarrow>
   foldl (\<lambda>result (key, v). obj_set result key (sqliteValue v)) acc rcd
     = acc @ map (\<lambda>(key, v). (key, sqliteValue v)) rcd"
proof (induction rcd arbitrary: acc)
  case Nil
  then show ?case by simp
next
  case (Cons kv rcd)
  obtain k v where kv: "kv = (k, v)" by (cases kv)
  from Cons.prems kv have fresh: "k \<notin> fst ` set acc" by auto
  from Cons.prems kv have d: "distinct (map fst rcd)" by simp
  from Cons.prems kv have
    disj: "fst ` set (acc @ [(k, sqliteValue v)]) \<inter> fst ` set rcd = {}" by auto
  show ?case
    using Cons.IH [OF d disj] by (simp add: kv obj_set_fresh [OF fresh])
qed

lemma convertObjectToSQLite_map:
  "wf_object rcd \<Longrightarrow>
   convertObjectToSQLite rcd = map (\<lambda>(key, v). (key, sqliteValue v)) rcd"
  using convert_foldl [of rcd "[]"] by (simp add: convertObjectToSQLite_def wf_object_def)

lemma map_of_map_values:
  "map_of (map (\<lambda>(key, v). (key, f v)) obj) key = map_option f (map_of obj key)"
  by (induction obj) auto

lemma map_of_convert:
  "wf_object rcd \<Longrightarrow>
   map_of (convertObjectToSQLite rcd) key = map_option sqliteValue (map_of rcd key)"
  by (simp add: convertObjectToSQLite_map map_of_map_values)

lemma filter_replaceQuotes:
  "filter (\<lambda>c. c \<noteq> quote) (replaceQuotes s) = filter (\<lambda>c. c \<noteq> quote) s"
  by (induction s) auto

lemma count_replaceQuotes:
  "length (filter (\<lambda>c. c = quote) (replaceQuotes s)) = 2 * length (filter (\<lambda>c. c = quote) s)"
  by (induction s) auto

lemma obj_delete_fold:
  "foldl (\<lambda>obj (key, v). if v = JNull then obj_delete obj key else obj) acc es
     = filter (\<lambda>(k, v). (k, JNull) \<notin> set es) acc"
proof (induction es arbitrary: acc)
  case Nil
  then show ?case by simp
next
  case (Cons kv es)
  obtain k v where kv: "kv = (k, v)" by (cases kv)
  have "filter (\<lambda>(k', w). (k', JNull) \<notin> set es) (obj_delete acc k)
          = filter (\<lambda>(k', w). (k', JNull) \<notin> set ((k, JNull) # es)) acc"
    unfolding obj_delete_def filter_filter by (rule filter_cong) auto
  moreover have "v \<noteq> JNull \<Longrightarrow> filter (\<lambda>(k', w). (k', JNull) \<notin> set es) acc
          = filter (\<lambda>(k', w). (k', JNull) \<notin> set ((k, v) # es)) acc"
    by (rule filter_cong) auto
  ultimately show ?case
    by (simp add: kv Cons.IH)
qed

lemma unique_value:
  "distinct (map fst obj) \<Longrightarrow> (k, v) \<in> set obj \<Longrightarrow> (k, w) \<in> set obj \<Longrightarrow> v = w"
  by (metis map_of_is_SomeI option.inject)

lemma deleteNulls_filter:
  "wf_object rcd \<Longrightarrow> deleteNulls rcd = filter (\<lambda>(k, v). v \<noteq> JNull) rcd"
  unfolding deleteNulls_def wf_object_def obj_delete_fold
  by (rule filter_cong) (auto dest: unique_value)

lemma wf_object_filter: "wf_object rcd \<Longrightarrow> wf_object (filter P rcd)"
  by (simp add: wf_object_def distinct_map_filter)

lemma updateStatement_deleteNulls:
  "wf_object rcd \<Longrightarrow>
   updateStatement tableName (deleteNulls rcd) whereClause
     = UpdateSet tableName
         (map (\<lambda>(key, v). (key, sqliteValue v)) (filter (\<lambda>(key, v). v \<noteq> JNull) rcd))
         whereClause"
  by (simp add: updateStatement_def deleteNulls_filter convertObjectToSQLite_map
      wf_object_filter)











lemma sync_counts:
  "syncLocalSurveys remote store records = (outcome, store') \<Longrightarrow>
   succeeded outcome = length (filter (\<lambda>r. accepted (remote r)) records)
   \<and> failed outcome = length (filter (\<lambda>r. \<not> accepted (remote r)) records)"
  for remote :: "survey \<Rightarrow> 'e + string"
  by (induction records arbitrary: store outcome store')
     (auto split: sum.splits prod.splits)

lemma markSynced_ids: "map localId (markSynced store i rid) = map localId store"
  by (simp add: markSynced_def)

lemma sync_keeps_rows:
  "syncLocalSurveys remote store records = (outcome, store') \<Longrightarrow>
   map localId store' = map localId store"
  for remote :: "survey \<Rightarrow> 'e + string"
proof (induction records arbitrary: store outcome store')
  case Nil
  then show ?case by simp
next
  case (Cons r rs)
  show ?case
  proof (cases "remote r")
    case (Inl e)
    with Cons.prems obtain o' where "syncLocalSurveys remote store rs = (o', store')"
      by (auto split: prod.splits)
    then show ?thesis by (rule Cons.IH)
  next
    case (Inr rid)
    with Cons.prems obtain o' where
      "syncLocalSurveys remote (markSynced store (localId r) rid) rs = (o', store')"
      by (auto split: prod.splits)
    then have "map localId store' = map localId (markSynced store (localId r) rid)"
      by (rule Cons.IH)
    then show ?thesis by (simp add: markSynced_ids)
  qed
qed

lemma statusOf_markSynced:
  "statusOf (markSynced store j rid) i
     = (if i = j \<and> i \<in> localId ` set store then Some SYNCED else statusOf store i)"
  by (induction store) (auto simp: statusOf_def markSynced_def)

lemma statusOf_None: "i \<notin> localId ` set store \<Longrightarrow> statusOf store i = None"
  by (induction store) (auto simp: statusOf_def)

lemma ids_markSynced: "localId ` set (markSynced store j rid) = localId ` set store"
  using markSynced_ids [of store j rid] by (metis set_map)

lemma sync_status:
  "syncLocalSurveys remote store records = (outcome, store') \<Longrightarrow>
   statusOf store' i
     = (if i \<in> localId ` set store \<and> (\<exists>r \<in> set records. localId r = i \<and> accepted (remote r))
        then Some SYNCED else statusOf store i)"
  for remote :: "survey \<Rightarrow> 'e + string"
proof (induction records arbitrary: store outcome store')
  case Nil
  then show ?case by simp
next
  case (Cons r rs)
  show ?case
  proof (cases "remote r")
    case (Inl e)
    with Cons.prems obtain o' where "syncLocalSurveys remote store rs = (o', store')"
      by (auto split: prod.splits)
    from Cons.IH [OF this] Inl show ?thesis by auto
  next
    case (Inr rid)
    with Cons.prems obtain o' where
      "syncLocalSurveys remote (markSynced store (localId r) rid) rs = (o', store')"
      by (auto split: prod.splits)
    from Cons.IH [OF this] Inr show ?thesis
      by (auto simp: statusOf_markSynced ids_markSynced)
  qed
qed

lemma statusOf_member:
  "distinct (map localId store) \<Longrightarrow> r \<in> set store \<Longrightarrow>
   statusOf store (localId r) = Some (syncStatus r)"
  by (induction store) (auto simp: statusOf_def)

lemma same_row:
  "distinct (map localId store) \<Longrightarrow> r \<in> set store \<Longrightarrow> r' \<in> set store \<Longrightarrow>
   localId r' = localId r \<Longrightarrow> r' = r"
  by (induction store) (auto simp: image_iff)

lemma maxId_le: "\<forall>i \<in> set (map fst rows). i \<le> s \<Longrightarrow> maxId rows \<le> s"
  by (induction rows) auto

lemma insertRow_inv:
  assumes "tableInv tb"
  shows "insertRow tb vs
           = tb\<lparr>lastLocalId := lastLocalId tb + 1,
                tableRows := tableRows tb @ [(lastLocalId tb + 1, vs)]\<rparr>"
    and "tableInv (insertRow tb vs)"
proof -
  from assms have "maxId (tableRows tb) \<le> lastLocalId tb"
    by (intro maxId_le) (simp add: tableInv_def)
  then have m: "max (lastLocalId tb) (maxId (tableRows tb)) = lastLocalId tb"
    by simp
  from assms show eq: "insertRow tb vs
           = tb\<lparr>lastLocalId := lastLocalId tb + 1,
                tableRows := tableRows tb @ [(lastLocalId tb + 1, vs)]\<rparr>"
    by (simp add: insertRow_def tableInv_def m)
  from assms show "tableInv (insertRow tb vs)"
    unfolding eq by (fastforce simp: tableInv_def sorted_wrt_append)
qed

lemma insertRows_inv:
  "tableInv tb \<Longrightarrow>
   tableInv (foldl insertRow tb vals)
   \<and> autoincrement (foldl insertRow tb vals)
   \<and> lastLocalId (foldl insertRow tb vals) = lastLocalId tb + length vals
   \<and> map fst (tableRows (foldl insertRow tb vals))
       = map fst (tableRows tb) @ [lastLocalId tb + 1 ..< lastLocalId tb + 1 + length vals]"
proof (induction vals arbitrary: tb)
  case Nil
  then show ?case by (simp add: tableInv_def)
next
  case (Cons vs vals)
  have inv: "tableInv (insertRow tb vs)"
    using Cons.prems by (rule insertRow_inv(2))
  have l: "lastLocalId (insertRow tb vs) = lastLocalId tb + 1"
    and r: "map fst (tableRows (insertRow tb vs))
              = map fst (tableRows tb) @ [lastLocalId tb + 1]"
    by (simp_all add: insertRow_inv(1) [OF Cons.prems])
  have "[lastLocalId tb + 1 ..< lastLocalId tb + 1 + length (vs # vals)]
          = (lastLocalId tb + 1) # [lastLocalId tb + 1 + 1 ..< lastLocalId tb + 1 + 1 + length vals]"
    by (simp add: upt_rec)
  then show ?case
    using Cons.IH [OF inv] by (simp add: l r)
qed

lemma ids_filter:
  "map fst (filter (\<lambda>(j, vs). j \<noteq> i) rows) = filter (\<lambda>j. j \<noteq> i) (map fst rows)"
  by (induction rows) auto

lemma emptyTable_inv: "tableInv emptyTable"
  by (simp add: tableInv_def emptyTable_def)

text \<open>The effect of one save on the engine, for a falsy primary-key argument.\<close>

lemma save_effect:
  assumes "\<not> truthy primaryKey"
  shows "applyOp t primaryKey db (Save records)
           = (if records = [] then db
              else db(t \<mapsto> foldl insertRow (case db t of None \<Rightarrow> emptyTable | Some tb \<Rightarrow> tb)
                                (insertedValues records)))"
proof (cases records)
  case Nil
  then show ?thesis by (simp add: applyOp.simps saveRecords_def)
next
  case (Cons r rs)
  show ?thesis
  proof (cases "db t")
    case None
    then show ?thesis
      using assms Cons
      by (simp add: applyOp.simps saveRecords_def prepareTable_def executeTransaction_def
          emptyTable_def insertedValues_def localIdColumn_def declaresAutoincrement_def
          Let_def)
  next
    case (Some tb)
    then have same: "db(t \<mapsto> tb) = db" by (simp add: fun_upd_idem)
    show ?thesis
      using assms Some Cons same
      by (simp add: applyOp.simps saveRecords_def prepareTable_def executeTransaction_def
          insertedValues_def Let_def)
  qed
qed

lemma delete_effect:
  "applyOp t primaryKey db (Delete i)
     = (case db t of
          None \<Rightarrow> db
        | Some tb \<Rightarrow>
            if autoincrement tb
            then db(t \<mapsto> tb\<lparr>tableRows := filter (\<lambda>(j, vs). j \<noteq> i) (tableRows tb)\<rparr>)
            else db)"
  by (cases "db t") (auto simp: applyOp.simps deleteRecord_def executeTransaction_def)

lemma clear_effect: "applyOp t primaryKey db Clear = db(t := None)"
  by (simp add: applyOp.simps clearTable_def executeTransaction_def)

declare applyOp.simps [simp del]

lemma newIds_append:
  assumes "db t = Some tb \<or> db t = None \<and> tb = emptyTable" and "tableInv tb"
    and "db' t = Some tb'"
    and "map fst (tableRows tb') = map fst (tableRows tb) @ new"
    and "\<forall>i \<in> set new. lastLocalId tb < i"
  shows "newIds db db' t = new"
proof -
  have old: "localIds db t = map fst (tableRows tb)"
    using assms(1) by (auto simp: localIds_def emptyTable_def)
  have "\<forall>i \<in> set new. i \<notin> set (map fst (tableRows tb))"
    using assms(2,5) by (fastforce simp: tableInv_def)
  then have keep: "filter (\<lambda>i. i \<notin> set (map fst (tableRows tb))) new = new"
    by (simp add: filter_id_conv)
  have drop: "filter (\<lambda>i. i \<notin> set (map fst (tableRows tb))) (map fst (tableRows tb)) = []"
    by (simp add: filter_empty_conv)
  have new: "localIds db' t = map fst (tableRows tb) @ new"
    using assms(3,4) by (simp add: localIds_def)
  show ?thesis
    unfolding newIds_def old new filter_append keep drop by simp
qed

lemma newIds_subset: "set (localIds db' t) \<subseteq> set (localIds db t) \<Longrightarrow> newIds db db' t = []"
  by (auto simp: newIds_def filter_empty_conv)

text \<open>One step of a history keeps the invariant and gives only larger identifiers.\<close>

lemma step_inv:
  assumes "\<not> truthy primaryKey" and "storeInv db t" and "op \<noteq> Clear"
  shows "storeInv (applyOp t primaryKey db op) t
       \<and> lastGiven db t \<le> lastGiven (applyOp t primaryKey db op) t
       \<and> sorted_wrt (<) (newIds db (applyOp t primaryKey db op) t)
       \<and> (\<forall>i \<in> set (newIds db (applyOp t primaryKey db op) t).
             lastGiven db t < i \<and> i \<le> lastGiven (applyOp t primaryKey db op) t)
       \<and> (\<forall>records. op = Save records \<longrightarrow>
             length (newIds db (applyOp t primaryKey db op) t)
               = length (insertedValues records))"
proof (cases op)
  case (Save records)
  show ?thesis
  proof (cases "records = []")
    case True
    then have "applyOp t primaryKey db op = db"
      using Save save_effect [OF assms(1)] by simp
    then show ?thesis
      using assms(2) Save True by (simp add: newIds_def insertedValues_def)
  next
    case False
    define tb where "tb = (case db t of None \<Rightarrow> emptyTable | Some tb \<Rightarrow> tb)"
    define tb' where "tb' = foldl insertRow tb (insertedValues records)"
    define new where
      "new = [lastLocalId tb + 1 ..< lastLocalId tb + 1 + length (insertedValues records)]"
    have db': "applyOp t primaryKey db op = db(t \<mapsto> tb')"
      using Save False save_effect [OF assms(1), of t db records]
      by (simp add: tb_def tb'_def)
    have tb: "db t = Some tb \<or> db t = None \<and> tb = emptyTable"
      by (cases "db t") (simp_all add: tb_def)
    have inv: "tableInv tb"
      using assms(2) tb emptyTable_inv by (auto simp: storeInv_def)
    have last: "lastGiven db t = lastLocalId tb"
      using tb by (auto simp: lastGiven_def emptyTable_def)
    note ins = insertRows_inv [OF inv, of "insertedValues records", folded tb'_def new_def]
    have new: "newIds db (db(t \<mapsto> tb')) t = new"
      using tb inv by (rule newIds_append) (use ins in \<open>auto simp: new_def\<close>)
    have sorted: "sorted_wrt (<) new"
      unfolding new_def by (rule sorted_wrt_upt)
    have len: "length new = length (insertedValues records)"
      unfolding new_def length_upt by simp
    have bounds: "\<forall>i \<in> set new. lastLocalId tb < i \<and> i \<le> lastLocalId tb'"
      using ins by (auto simp: new_def)
    have inv': "storeInv (db(t \<mapsto> tb')) t"
      using ins by (simp add: storeInv_def)
    have last': "lastGiven (db(t \<mapsto> tb')) t = lastLocalId tb'"
      by (simp add: lastGiven_def)
    have mono: "lastLocalId tb \<le> lastLocalId tb'"
      using ins by simp
    show ?thesis
      unfolding db' new last last'
      using sorted len bounds inv' mono Save by simp
  qed
next
  case (Delete i)
  show ?thesis
  proof (cases "db t")
    case None
    then show ?thesis
      using Delete assms(2) by (simp add: delete_effect newIds_def)
  next
    case (Some tb)
    then have inv: "tableInv tb"
      using assms(2) by (simp add: storeInv_def)
    let ?tb' = "tb\<lparr>tableRows := filter (\<lambda>(j, vs). j \<noteq> i) (tableRows tb)\<rparr>"
    have db': "applyOp t primaryKey db op = db(t \<mapsto> ?tb')"
      using Delete Some inv by (simp add: delete_effect tableInv_def)
    have ids: "map fst (tableRows ?tb') = filter (\<lambda>j. j \<noteq> i) (map fst (tableRows tb))"
      by (simp add: ids_filter)
    have inv': "tableInv ?tb'"
      using inv unfolding tableInv_def ids by (auto intro: sorted_wrt_filter)
    have "newIds db (db(t \<mapsto> ?tb')) t = []"
      by (rule newIds_subset) (auto simp: localIds_def Some)
    then show ?thesis
      unfolding db' using inv' Some Delete by (simp add: storeInv_def lastGiven_def)
  qed
next
  case Clear
  with assms(3) show ?thesis by simp
qed

lemma storeInv_history:
  "\<not> truthy primaryKey \<Longrightarrow> storeInv db t \<Longrightarrow>
   storeInv (foldl (applyOp t primaryKey) db ops) t"
proof (induction ops arbitrary: db)
  case Nil
  then show ?case by simp
next
  case (Cons op ops)
  have "storeInv (applyOp t primaryKey db op) t"
  proof (cases "op = Clear")
    case True
    then show ?thesis by (simp add: clear_effect storeInv_def)
  next
    case False
    with step_inv [OF Cons.prems] show ?thesis by simp
  qed
  with Cons.IH [OF Cons.prems(1)] show ?case by simp
qed

lemma history_inv:
  "\<not> truthy primaryKey \<Longrightarrow> storeInv db t \<Longrightarrow> Clear \<notin> set ops \<Longrightarrow>
   sorted_wrt (<) (assigned t primaryKey db ops)
   \<and> (\<forall>i \<in> set (assigned t primaryKey db ops). lastGiven db t < i)
   \<and> storeInv (foldl (applyOp t primaryKey) db ops) t
   \<and> length (assigned t primaryKey db ops) = length (concat (map savedValues ops))"
proof (induction ops arbitrary: db)
  case Nil
  then show ?case by simp
next
  case (Cons op ops)
  let ?db' = "applyOp t primaryKey db op"
  from Cons.prems(3) have op: "op \<noteq> Clear" and ops: "Clear \<notin> set ops" by auto
  note step = step_inv [OF Cons.prems(1,2) op]
  from step have inv': "storeInv ?db' t" by simp
  note rest = Cons.IH [OF Cons.prems(1) inv' ops]
  have cross: "\<forall>i \<in> set (newIds db ?db' t). \<forall>j \<in> set (assigned t primaryKey ?db' ops). i < j"
    using step rest by fastforce
  have later: "\<forall>j \<in> set (assigned t primaryKey ?db' ops). lastGiven db t < j"
    using step rest by fastforce
  have len: "length (newIds db ?db' t) = length (savedValues op)"
  proof (cases op)
    case (Save records)
    with step show ?thesis by simp
  next
    case (Delete i)
    have "storeInv db t" by (rule Cons.prems(2))
    then have "newIds db (applyOp t primaryKey db (Delete i)) t = []"
      by (intro newIds_subset)
         (auto simp: delete_effect localIds_def split: option.splits)
    with Delete show ?thesis by simp
  next
    case Clear
    with op show ?thesis by simp
  qed
  have first: "\<forall>i \<in> set (newIds db ?db' t). lastGiven db t < i"
    using step by simp
  have s1: "sorted_wrt (<) (newIds db ?db' t)"
    using step by simp
  show ?case
    using rest s1 first cross later len by (simp add: sorted_wrt_append ball_Un)
qed

lemma rows_were_assigned:
  "set (localIds (foldl (applyOp t primaryKey) db ops) t)
     \<subseteq> set (localIds db t) \<union> set (assigned t primaryKey db ops)"
proof (induction ops arbitrary: db)
  case Nil
  then show ?case by simp
next
  case (Cons op ops)
  have "set (localIds (applyOp t primaryKey db op) t)
          \<subseteq> set (localIds db t) \<union> set (newIds db (applyOp t primaryKey db op) t)"
    by (auto simp: newIds_def)
  with Cons.IH [of "applyOp t primaryKey db op"] show ?case
    by auto
qed

lemma insertedValues_sameFields:
  "sameFields records \<Longrightarrow>
   insertedValues records = map (\<lambda>rcd. map snd (convertObjectToSQLite rcd)) records"
  by (cases records)
     (auto simp: sameFields_def insertedValues_def getFieldTypeMappings_def Let_def
        convertObjectToSQLite_map comp_def case_prod_beta)

lemma savedValues_count:
  "\<forall>op \<in> set ops. sameFieldsOp op \<Longrightarrow>
   length (concat (map savedValues ops)) = length (savedRecords ops)"
proof (induction ops)
  case Nil
  then show ?case by simp
next
  case (Cons op ops)
  then show ?case
    by (cases op) (simp_all add: insertedValues_sameFields)
qed

lemma history_parts: "upToClear ops @ sinceClear ops = ops"
proof -
  have "upToClear ops @ sinceClear ops
          = rev (takeWhile (\<lambda>op. op \<noteq> Clear) (rev ops) @ dropWhile (\<lambda>op. op \<noteq> Clear) (rev ops))"
    unfolding upToClear_def sinceClear_def rev_append ..
  also have "\<dots> = ops"
    by (simp only: takeWhile_dropWhile_id rev_rev_ident)
  finally show ?thesis .
qed

lemma sinceClear_no_clear: "Clear \<notin> set (sinceClear ops)"
  by (auto simp: sinceClear_def dest: set_takeWhileD)

lemma upToClear_cases: "upToClear ops = [] \<or> (\<exists>pre. upToClear ops = pre @ [Clear])"
proof (cases "dropWhile (\<lambda>op. op \<noteq> Clear) (rev ops)")
  case Nil
  then show ?thesis by (simp add: upToClear_def)
next
  case (Cons y ys)
  then have "\<not> (y \<noteq> Clear)"
    using hd_dropWhile [of "\<lambda>op. op \<noteq> Clear" "rev ops"] by simp
  with Cons show ?thesis by (simp add: upToClear_def)
qed

lemma table_gone:
  "db t = None \<Longrightarrow> foldl (applyOp t primaryKey) db (upToClear ops) t = None"
  using upToClear_cases [of ops] by (auto simp: clear_effect)

section \<open>The statements as text\<close>

text \<open>
  The text \<open>render\<close> gives for the statements of one save and one update, as the template
  literals of database.ts spell them: the record \<^verbatim>\<open>{name: 'A', active: true, count: 0}\<close>
  is inserted with \<^verbatim>\<open>active\<close> as \<^verbatim>\<open>1\<close> and \<^verbatim>\<open>count\<close> as \<^verbatim>\<open>''\<close>.
\<close>

lemma saveRecords_statement_text:
  "map render (snd (saveRecords recordingExec [] ''Survey''
                      [[(''name'', JStr ''A''), (''active'', JBool True), (''count'', JNum 0)]]
                      JUndefined))
     = [''create table if not exists Survey (_localId integer primary key autoincrement,''
          @ ''name text,active integer,count integer);'',
        ''insert into Survey (name,active,count) values (''
          @ [quote] @ ''A'' @ [quote] @ '',1,'' @ [quote, quote] @ '')'']"
  by (simp add: saveRecords_def prepareTable_def executeTransaction_def recordingExec_def
      getFieldTypeMappings_def convertObjectToSQLite_def sqliteValue_def localIdColumn_def
      show_int_def show_nat.simps digit_def quote_def)

lemma updateRecord_statement_text:
  "map render (fst (snd (updateRecord recordingExec []
                           (exampleHeap [(''status'', JNull), (''name'', JStr ''X''),
                                         (''score'', JNum (- 120))])
                           ''Survey'' 0 ''where _localId = 3'')))
     = [''update Survey set name = '' @ [quote] @ ''X'' @ [quote]
          @ '',score = -120 where _localId = 3'']"
  by (simp add: updateRecord_def updateStatement_def deleteNulls_def obj_delete_def
      executeTransaction_def recordingExec_def convertObjectToSQLite_def sqliteValue_def
      show_int_def show_nat.simps digit_def quote_def exampleHeap_def)

text \<open>
  \<^verbatim>\<open>getRecords\<close> without a where clause is rejected, and all the same hands the store
  the statement \<^verbatim>\<open>select * from Survey undefined\<close>.
\<close>

lemma getRecords_still_runs:
  "map render (snd (getRecords recordingExec [] ''Survey'' JUndefined))
     = [''select * from Survey undefined'']"
  by (simp add: getRecords_def executeTransaction_def recordingExec_def)

section \<open>Claims on the value coercion\<close>

text \<open>
  C1 (the code at the failing input). The claim has the boolean \<^verbatim>\<open>false\<close> written
  as the integer 0. In the code the test \<^verbatim>\<open>!value\<close> comes first and takes \<^verbatim>\<open>false\<close>
  with the other falsy values: the field is written as the empty text literal, and the
  branch \<^verbatim>\<open>value ? 1 : 0\<close> only ever sees \<^verbatim>\<open>true\<close>.
\<close>

theorem C1_false_serializes_as_empty_text:
  "convertObjectToSQLite [(''name'', JStr ''A''), (''active'', JBool False)]
     = [(''name'', JStr ([quote] @ ''A'' @ [quote])), (''active'', JStr [quote, quote])]
   \<and> sqliteValue (JBool False) \<noteq> JNum 0
   \<and> sqliteValue (JBool True) = JNum 1"
  by (simp add: convertObjectToSQLite_def sqliteValue_def quote_def)

text \<open>
  C2. In every record, a field whose value is falsy and not a boolean (the number 0,
  \<^verbatim>\<open>NaN\<close>, the empty string, \<^verbatim>\<open>null\<close>, \<^verbatim>\<open>undefined\<close>) is written as the empty text
  literal \<^verbatim>\<open>''\<close>, and a field holding a non-empty string is written between single
  quotes with every single quote of the string doubled and every other character kept.
  In particular \<^verbatim>\<open>count: 0\<close> is written as \<^verbatim>\<open>''\<close>, not as 0.
\<close>

theorem C2_falsy_values_and_strings:
  assumes "wf_object rcd" and "map_of rcd key = Some v"
  shows "(\<not> truthy v \<and> typeof v \<noteq> TBoolean \<longrightarrow>
            map_of (convertObjectToSQLite rcd) key = Some (JStr [quote, quote]))
       \<and> (\<forall>s. v = JStr s \<and> s \<noteq> [] \<longrightarrow>
            map_of (convertObjectToSQLite rcd) key
              = Some (JStr ([quote] @ replaceQuotes s @ [quote]))
            \<and> filter (\<lambda>c. c \<noteq> quote) (replaceQuotes s) = filter (\<lambda>c. c \<noteq> quote) s
            \<and> length (filter (\<lambda>c. c = quote) (replaceQuotes s))
                = 2 * length (filter (\<lambda>c. c = quote) s))
       \<and> (v = JNum 0 \<longrightarrow> map_of (convertObjectToSQLite rcd) key \<noteq> Some (JNum 0))"
  using assms
  by (auto simp: map_of_convert sqliteValue_def filter_replaceQuotes count_replaceQuotes)

theorem C2_falsy_values_and_strings_witness:
  "map_of (convertObjectToSQLite
             [(''name'', JStr [CHR ''O'', quote, CHR ''N'']), (''active'', JBool True),
              (''count'', JNum 0)]) ''count'' = Some (JStr [quote, quote])
   \<and> map_of (convertObjectToSQLite
             [(''name'', JStr [CHR ''O'', quote, CHR ''N'']), (''active'', JBool True),
              (''count'', JNum 0)]) ''name''
       = Some (JStr [quote, CHR ''O'', quote, quote, CHR ''N'', quote])"
  using C2_falsy_values_and_strings
          [of "[(''name'', JStr [CHR ''O'', quote, CHR ''N'']), (''active'', JBool True),
                (''count'', JNum 0)]" "''count''" "JNum 0"]
        C2_falsy_values_and_strings
          [of "[(''name'', JStr [CHR ''O'', quote, CHR ''N'']), (''active'', JBool True),
                (''count'', JNum 0)]" "''name''" "JStr [CHR ''O'', quote, CHR ''N'']"]
  by (simp add: wf_object_def quote_def)


section \<open>Claims on the local store\<close>

text \<open>
  C6 (as the claim states it, at a concrete input). A field that is present with the
  value \<^verbatim>\<open>undefined\<close> is not left out of the update: only \<^verbatim>\<open>value === null\<close> deletes
  a field, and the coercion then writes \<^verbatim>\<open>undefined\<close> as the empty text. For the record
  \<^verbatim>\<open>{status: undefined, name: 'X'}\<close> the statement is
  \<^verbatim>\<open>update Survey set status = '',name = 'X' where _localId = 3\<close>.
\<close>

theorem C6_undefined_field_is_updated:
  "fst (snd (updateRecord recordingExec []
               (exampleHeap [(''status'', JUndefined), (''name'', JStr ''X'')])
               ''Survey'' 0 ''where _localId = 3''))
     = [UpdateSet ''Survey''
          [(''status'', JStr [quote, quote]), (''name'', JStr [quote, CHR ''X'', quote])]
          ''where _localId = 3'']
   \<and> ''status'' \<in> fst ` set (assignments
          (updateStatement ''Survey''
             (deleteNulls [(''status'', JUndefined), (''name'', JStr ''X'')])
             ''where _localId = 3''))"
  by (simp add: updateRecord_def executeTransaction_def recordingExec_def updateStatement_def
      deleteNulls_def obj_delete_def convertObjectToSQLite_def sqliteValue_def quote_def
      exampleHeap_def)

text \<open>
  C6 (amended). For every table name, record and filter, the one statement
  \<^verbatim>\<open>updateRecord\<close> runs is the update of the table under the caller's filter whose
  assignments are, in the record's order, exactly the fields whose value is not \<^verbatim>\<open>null\<close>,
  each set to its coerced value; a field is assigned if and only if the record holds it
  with a value other than \<^verbatim>\<open>null\<close> (a field holding \<^verbatim>\<open>undefined\<close> is assigned the
  empty text).
\<close>

theorem C6_update_excludes_null_fields:
  assumes "wf_object (h r)"
  shows "(fst (updateRecord exec db h tableName r whereClause),
          fst (snd (updateRecord exec db h tableName r whereClause)))
           = executeTransaction exec db
               (UpdateSet tableName
                  (map (\<lambda>(key, v). (key, sqliteValue v))
                     (filter (\<lambda>(key, v). v \<noteq> JNull) (h r)))
                  whereClause)
       \<and> (\<forall>key. key \<in> fst ` set (assignments (updateStatement tableName
                                                   (deleteNulls (h r)) whereClause))
                 \<longleftrightarrow> (\<exists>v. map_of (h r) key = Some v \<and> v \<noteq> JNull))"
proof -
  have st: "updateStatement tableName (deleteNulls (h r)) whereClause
              = UpdateSet tableName
                  (map (\<lambda>(key, v). (key, sqliteValue v))
                     (filter (\<lambda>(key, v). v \<noteq> JNull) (h r)))
                  whereClause"
    using assms by (rule updateStatement_deleteNulls)
  have run: "(fst (updateRecord exec db h tableName r whereClause),
              fst (snd (updateRecord exec db h tableName r whereClause)))
               = executeTransaction exec db
                   (updateStatement tableName (deleteNulls (h r)) whereClause)"
    by (simp add: updateRecord_def split: prod.splits)
  have keys: "key \<in> fst ` set (map (\<lambda>(key, v). (key, sqliteValue v))
                                 (filter (\<lambda>(key, v). v \<noteq> JNull) (h r)))
                \<longleftrightarrow> (\<exists>v. map_of (h r) key = Some v \<and> v \<noteq> JNull)" for key
    using assms by (force simp: wf_object_def)
  show ?thesis
    using run keys by (simp add: st)
qed

theorem C6_update_excludes_null_fields_witness:
  "fst (snd (updateRecord recordingExec []
               (exampleHeap [(''status'', JNull), (''name'', JStr ''X'')])
               ''Survey'' 0 ''where _localId = 3''))
     = [UpdateSet ''Survey'' [(''name'', JStr [quote, CHR ''X'', quote])]
          ''where _localId = 3'']"
  using C6_update_excludes_null_fields
          [of "exampleHeap [(''status'', JNull), (''name'', JStr ''X'')]" 0 recordingExec "[]"
              "''Survey''" "''where _localId = 3''"]
  by (simp add: wf_object_def executeTransaction_def recordingExec_def sqliteValue_def
      quote_def exampleHeap_def)

text \<open>
  C10. \<^verbatim>\<open>updateRecord\<close> changes the object its caller passed: after the call the
  object at the caller's reference holds the fields it had whose value is not \<^verbatim>\<open>null\<close>,
  in their order, and no field whose value was \<^verbatim>\<open>null\<close>; the statement is built from
  the object so changed, and every other object of the heap is as it was.
\<close>

theorem C10_update_mutates_caller_record:
  assumes "wf_object (h r)"
  shows "snd (snd (updateRecord exec db h tableName r whereClause)) r
           = filter (\<lambda>(key, v). v \<noteq> JNull) (h r)
       \<and> (\<forall>key. map_of (h r) key = Some JNull \<longrightarrow>
             map_of (snd (snd (updateRecord exec db h tableName r whereClause)) r) key = None)
       \<and> (\<forall>r'. r' \<noteq> r \<longrightarrow>
             snd (snd (updateRecord exec db h tableName r whereClause)) r' = h r')"
proof -
  have h': "snd (snd (updateRecord exec db h tableName r whereClause))
              = h(r := deleteNulls (h r))"
    by (simp add: updateRecord_def split: prod.splits)
  have gone: "map_of (filter (\<lambda>(key, v). v \<noteq> JNull) (h r)) key = None"
    if "map_of (h r) key = Some JNull" for key
  proof -
    have "(key, v) \<in> set (h r) \<Longrightarrow> v = JNull" for v
      using that assms by (auto simp: wf_object_def)
    then show ?thesis
      by (auto simp: map_of_eq_None_iff)
  qed
  show ?thesis
    using gone by (simp add: h' deleteNulls_filter [OF assms])
qed

theorem C10_update_mutates_caller_record_witness:
  "snd (snd (updateRecord recordingExec []
               (exampleHeap [(''status'', JNull), (''name'', JStr ''X'')])
               ''Survey'' 0 ''where _localId = 3'')) 0 = [(''name'', JStr ''X'')]
   \<and> snd (snd (updateRecord recordingExec []
               (exampleHeap [(''status'', JNull), (''name'', JStr ''X'')])
               ''Survey'' 0 ''where _localId = 3'')) 1 = []"
  using C10_update_mutates_caller_record
          [of "exampleHeap [(''status'', JNull), (''name'', JStr ''X'')]" 0 recordingExec "[]"
              "''Survey''" "''where _localId = 3''"]
  by (simp add: wf_object_def exampleHeap_def)

text \<open>
  C7. For every table name, \<^verbatim>\<open>getRecords\<close> called with a falsy where clause
  (\<^verbatim>\<open>undefined\<close>, \<^verbatim>\<open>null\<close>, the empty string) is rejected with the message that asks
  for a where clause, whatever the store answers; \<^verbatim>\<open>getAllRecords\<close> is never rejected
  with such a message: it is rejected only with the store's own error.
\<close>

theorem C7_getRecords_requires_filter:
  "(\<not> truthy whereClause \<longrightarrow>
      fst (getRecords exec db tableName whereClause)
        = Rejected (InvalidArgument whereClauseMessage))
   \<and> (\<forall>m. fst (getAllRecords exec db tableName) \<noteq> Rejected (InvalidArgument m))
   \<and> (\<forall>e. fst (getAllRecords exec db tableName) = Rejected e \<longrightarrow>
         (\<exists>err. e = StorageError err \<and> fst (exec db (SelectAll tableName)) = Inl err))"
  by (auto simp: getRecords_def getAllRecords_def executeTransaction_def
      split: prod.splits sum.splits)

theorem C7_getRecords_requires_filter_witness:
  "fst (getRecords recordingExec [] ''Survey'' JUndefined)
     = Rejected (InvalidArgument whereClauseMessage)
   \<and> fst (getRecords recordingExec [] ''Survey'' (JStr []))
     = Rejected (InvalidArgument whereClauseMessage)
   \<and> fst (getAllRecords recordingExec [] ''Survey'') = Resolved []"
  using C7_getRecords_requires_filter [of JUndefined recordingExec "[]" "''Survey''"]
        C7_getRecords_requires_filter [of "JStr []" recordingExec "[]" "''Survey''"]
  by (simp add: getAllRecords_def executeTransaction_def recordingExec_def)

text \<open>
  C8. For every table name and primary key, and whatever the store would do,
  \<^verbatim>\<open>saveRecords\<close> on an empty list of records resolves to the empty array and hands no
  statement to the store: the database state is the one it was given (no table is
  created, nothing is inserted).
\<close>

theorem C8_saveRecords_empty_is_noop:
  "saveRecords exec db tableName [] primaryKey = (Resolved EmptyArray, db)
   \<and> snd (saveRecords recordingExec [] tableName [] primaryKey) = []"
  by (simp add: saveRecords_def)

section \<open>Claims on the metadata cache and the layout assembler\<close>







section \<open>Claim on the sync reconciler\<close>

text \<open>
  C4. For every local store with unique row identifiers and every ordered sequence of its
  rows flagged UNSYNCED: the reconciler reports as succeeded the number of records the
  remote call accepted and as failed the number it refused (together all of them); the
  store holds the same rows after as before, none deleted; a record the remote call
  refused is still UNSYNCED, whatever came before or after it, and a record it accepted
  is SYNCED. The witness is the scenario of three records of which the second fails.
\<close>

theorem C4_sync_isolates_failures:
  fixes createOrUpdate :: "survey \<Rightarrow> 'e + string"
  assumes "distinct (map localId store)"
    and "set records \<subseteq> set (localSurveys store)"
  shows "fst (syncLocalSurveys createOrUpdate store records)
           = \<lparr>succeeded = length (filter (\<lambda>r. accepted (createOrUpdate r)) records),
              failed = length (filter (\<lambda>r. \<not> accepted (createOrUpdate r)) records)\<rparr>
       \<and> succeeded (fst (syncLocalSurveys createOrUpdate store records))
           + failed (fst (syncLocalSurveys createOrUpdate store records)) = length records
       \<and> map localId (snd (syncLocalSurveys createOrUpdate store records))
           = map localId store
       \<and> (\<forall>r \<in> set records.
            statusOf (snd (syncLocalSurveys createOrUpdate store records)) (localId r)
              = Some (if accepted (createOrUpdate r) then SYNCED else UNSYNCED))"
proof -
  let ?out = "fst (syncLocalSurveys createOrUpdate store records)"
  let ?store' = "snd (syncLocalSurveys createOrUpdate store records)"
  have run: "syncLocalSurveys createOrUpdate store records = (?out, ?store')"
    by simp
  have counts: "succeeded ?out = length (filter (\<lambda>r. accepted (createOrUpdate r)) records)"
    "failed ?out = length (filter (\<lambda>r. \<not> accepted (createOrUpdate r)) records)"
    using sync_counts [OF run] by simp_all
  have total: "succeeded ?out + failed ?out = length records"
    unfolding counts by (rule sum_length_filter_compl)
  have status: "statusOf ?store' (localId r)
                  = Some (if accepted (createOrUpdate r) then SYNCED else UNSYNCED)"
    if r: "r \<in> set records" for r
  proof -
    from r assms(2) have mem: "r \<in> set store" and un: "syncStatus r = UNSYNCED"
      by (auto simp: localSurveys_def)
    show ?thesis
    proof (cases "accepted (createOrUpdate r)")
      case True
      with r mem show ?thesis
        by (auto simp: sync_status [OF run])
    next
      case False
      have "\<not> (\<exists>r' \<in> set records. localId r' = localId r \<and> accepted (createOrUpdate r'))"
      proof
        assume "\<exists>r' \<in> set records. localId r' = localId r \<and> accepted (createOrUpdate r')"
        then obtain r' where r': "r' \<in> set records" "localId r' = localId r"
          "accepted (createOrUpdate r')" by blast
        from r'(1) assms(2) have "r' \<in> set store" by (auto simp: localSurveys_def)
        with same_row [OF assms(1) mem _ r'(2)] have "r' = r" by simp
        with r'(3) False show False by simp
      qed
      then show ?thesis
        using False statusOf_member [OF assms(1) mem] un by (simp add: sync_status [OF run])
    qed
  qed
  show ?thesis
    using counts total sync_keeps_rows [OF run] status by simp
qed

theorem C4_sync_isolates_failures_witness:
  "fst (syncLocalSurveys failsOnSecond threeSurveys (localSurveys threeSurveys))
     = \<lparr>succeeded = 2, failed = 1\<rparr>
   \<and> map (statusOf (snd (syncLocalSurveys failsOnSecond threeSurveys
                            (localSurveys threeSurveys)))) [1, 2, 3]
     = [Some SYNCED, Some UNSYNCED, Some SYNCED]
   \<and> map localId (snd (syncLocalSurveys failsOnSecond threeSurveys
                          (localSurveys threeSurveys))) = [1, 2, 3]"
proof -
  have d: "distinct (map localId threeSurveys)"
    by (simp add: threeSurveys_def)
  have ls: "localSurveys threeSurveys = threeSurveys"
    by (simp add: localSurveys_def threeSurveys_def)
  show ?thesis
    using C4_sync_isolates_failures [of threeSurveys threeSurveys failsOnSecond, OF d]
    by (simp add: ls) (simp add: threeSurveys_def failsOnSecond_def)
qed

section \<open>Claim on the local identifiers\<close>

text \<open>
  C9 (as the claim states it, at a concrete history). \<^verbatim>\<open>clearTable\<close> drops a table
  with its counter, and \<^verbatim>\<open>retrieveAllMetadata\<close> runs it before it saves the picklist
  values without a primary key. In the history of a table that is filled with two rows,
  cleared and filled again, the rows receive the identifiers 1, 2 and then 1 again: the
  identifiers are not strictly increasing across the successive inserts, and identifier 1
  is given a second time after its row is gone.
\<close>

theorem C9_clearTable_restarts_identifiers:
  "assigned ''PicklistValue'' JUndefined noTables refreshHistory = [1, 2, 1]
   \<and> \<not> sorted_wrt (<) (assigned ''PicklistValue'' JUndefined noTables refreshHistory)
   \<and> \<not> distinct (assigned ''PicklistValue'' JUndefined noTables refreshHistory)"
proof -
  have run: "assigned ''PicklistValue'' JUndefined noTables refreshHistory = [1, 2, 1]"
    by (simp add: refreshHistory_def noTables_def applyOp.simps saveRecords_def
        prepareTable_def clearTable_def executeTransaction_def getFieldTypeMappings_def
        convertObjectToSQLite_def sqliteValue_def insertRow_def newIds_def localIds_def
        localIdColumn_def declaresAutoincrement_def Let_def)
  show ?thesis
    unfolding run by simp
qed

text \<open>
  C9 (amended). Take a table that does not exist yet and any history of saves without a
  primary-key field (\<^verbatim>\<open>saveRecords\<close> with a falsy \<^verbatim>\<open>primaryKey\<close>), of deletions by
  \<^verbatim>\<open>_localId\<close> (\<^verbatim>\<open>deleteRecord\<close>) and of \<^verbatim>\<open>clearTable\<close>. The identifiers given to
  the rows inserted since the table was last dropped (since the start, if it never was),
  in the order they were given, are strictly increasing: each is larger than every
  identifier given before it, so no two rows get the same one and an identifier is not
  given again after \<^verbatim>\<open>deleteRecord\<close> took its row. The identifiers present in the table
  at the end are pairwise different and each is one of those given. When the records of
  every save since the drop have the fields of their first record, and not \<^verbatim>\<open>_localId\<close>
  itself, every one of these records got an identifier.
\<close>

theorem C9_localId_unique_increasing:
  assumes "\<not> truthy primaryKey" and "db t = None"
  shows "sorted_wrt (<) (assignedSinceClear t primaryKey db ops)
       \<and> distinct (assignedSinceClear t primaryKey db ops)
       \<and> distinct (localIds (foldl (applyOp t primaryKey) db ops) t)
       \<and> set (localIds (foldl (applyOp t primaryKey) db ops) t)
           \<subseteq> set (assignedSinceClear t primaryKey db ops)
       \<and> ((\<forall>op \<in> set (sinceClear ops). sameFieldsOp op) \<longrightarrow>
            length (assignedSinceClear t primaryKey db ops)
              = length (savedRecords (sinceClear ops)))"
proof -
  define db0 where "db0 = foldl (applyOp t primaryKey) db (upToClear ops)"
  have gone: "db0 t = None"
    unfolding db0_def using assms(2) by (rule table_gone)
  then have inv: "storeInv db0 t"
    by (simp add: storeInv_def)
  have final: "foldl (applyOp t primaryKey) db ops
                 = foldl (applyOp t primaryKey) db0 (sinceClear ops)"
    unfolding db0_def foldl_append [symmetric] history_parts ..
  have since: "assignedSinceClear t primaryKey db ops
                 = assigned t primaryKey db0 (sinceClear ops)"
    by (simp add: assignedSinceClear_def db0_def)
  note h = history_inv [OF assms(1) inv sinceClear_no_clear, of ops]
  from h have sorted: "sorted_wrt (<) (assigned t primaryKey db0 (sinceClear ops))" by simp
  then have d: "distinct (assigned t primaryKey db0 (sinceClear ops))"
    by (simp add: strict_sorted_iff)
  have "sorted_wrt (<) (localIds (foldl (applyOp t primaryKey) db0 (sinceClear ops)) t)"
    using h by (auto simp: storeInv_def tableInv_def localIds_def split: option.splits)
  then have d': "distinct (localIds (foldl (applyOp t primaryKey) db0 (sinceClear ops)) t)"
    by (simp add: strict_sorted_iff)
  have sub: "set (localIds (foldl (applyOp t primaryKey) db0 (sinceClear ops)) t)
               \<subseteq> set (assigned t primaryKey db0 (sinceClear ops))"
    using rows_were_assigned [of t primaryKey db0 "sinceClear ops"] gone
    by (simp add: localIds_def)
  have count: "length (assigned t primaryKey db0 (sinceClear ops))
                 = length (savedRecords (sinceClear ops))"
    if "\<forall>op \<in> set (sinceClear ops). sameFieldsOp op"
    using h savedValues_count [OF that] by simp
  show ?thesis
    unfolding since final using sorted d d' sub count by simp
qed

theorem C9_localId_unique_increasing_witness:
  "assignedSinceClear ''Survey'' JUndefined noTables exampleHistory = [1, 2, 3]
   \<and> localIds (foldl (applyOp ''Survey'' JUndefined) noTables exampleHistory) ''Survey''
       = [1, 3]
   \<and> sorted_wrt (<) (assignedSinceClear ''Survey'' JUndefined noTables exampleHistory)
   \<and> length (assignedSinceClear ''Survey'' JUndefined noTables exampleHistory)
       = length (savedRecords (sinceClear exampleHistory))"
proof -
  have since: "sinceClear exampleHistory
                 = [Save [[(''name'', JStr ''A'')], [(''name'', JStr ''B'')]], Delete 2,
                    Save [[(''name'', JStr ''C'')]]]"
    and upto: "upToClear exampleHistory = [Save [[(''name'', JStr ''Z'')]], Clear]"
    by (simp_all add: sinceClear_def upToClear_def exampleHistory_def)
  have shape: "\<forall>op \<in> set (sinceClear exampleHistory). sameFieldsOp op"
    unfolding since by (simp add: sameFields_def wf_object_def)
  have run: "assignedSinceClear ''Survey'' JUndefined noTables exampleHistory = [1, 2, 3]"
    "localIds (foldl (applyOp ''Survey'' JUndefined) noTables exampleHistory) ''Survey''
       = [1, 3]"
    unfolding assignedSinceClear_def since upto
    by (simp_all add: exampleHistory_def noTables_def applyOp.simps saveRecords_def
        prepareTable_def clearTable_def executeTransaction_def deleteRecord_def
        getFieldTypeMappings_def convertObjectToSQLite_def sqliteValue_def insertRow_def
        newIds_def localIds_def localIdColumn_def declaresAutoincrement_def Let_def)
  have none: "noTables ''Survey'' = None"
    by (simp add: noTables_def)
  show ?thesis
    using C9_localId_unique_increasing [of JUndefined noTables "''Survey''" exampleHistory]
      none shape run
    by simp
qed

end
